theory Spec2Isabelle
  imports Complex_Main "HOL-Library.Sublist"
begin

section \<open>Python string operations used by \<open>entity_validator.py\<close>\<close>

text \<open>
  Strings are lists of characters; the character functions below are those of Python's
  \<open>str\<close> on the ASCII range (other characters are neither letters nor whitespace and have
  no case). Python's floats are modelled as reals, without rounding: the validators
  compare them with literals, subtract them from \<open>1\<close>, average them and divide two
  counts.
\<close>

definition is_space :: "char \<Rightarrow> bool" where
  "is_space c =
     (let n = (of_char c :: nat) in (9 \<le> n \<and> n \<le> 13) \<or> (28 \<le> n \<and> n \<le> 32))"

definition is_alpha :: "char \<Rightarrow> bool" where
  "is_alpha c =
     (let n = (of_char c :: nat) in (65 \<le> n \<and> n \<le> 90) \<or> (97 \<le> n \<and> n \<le> 122))"

definition upper_char :: "char \<Rightarrow> char" where
  "upper_char c =
     (let n = (of_char c :: nat) in if 97 \<le> n \<and> n \<le> 122 then char_of (n - 32) else c)"

definition lower_char :: "char \<Rightarrow> char" where
  "lower_char c =
     (let n = (of_char c :: nat) in if 65 \<le> n \<and> n \<le> 90 then char_of (n + 32) else c)"

text \<open>\<open>s.upper()\<close> and \<open>s.lower()\<close>.\<close>

definition str_upper :: "string \<Rightarrow> string" where
  "str_upper s = map upper_char s"

definition str_lower :: "string \<Rightarrow> string" where
  "str_lower s = map lower_char s"

text \<open>\<open>s.isalpha()\<close>: at least one character, all of them letters.\<close>

definition str_isalpha :: "string \<Rightarrow> bool" where
  "str_isalpha s = (s \<noteq> [] \<and> list_all is_alpha s)"

text \<open>\<open>s.strip(chars)\<close> and \<open>s.strip()\<close>: drop the characters from both ends.\<close>

definition strip_where :: "(char \<Rightarrow> bool) \<Rightarrow> string \<Rightarrow> string" where
  "strip_where p s = rev (dropWhile p (rev (dropWhile p s)))"

definition str_strip :: "string \<Rightarrow> string" where
  "str_strip s = strip_where is_space s"

definition str_strip_chars :: "string \<Rightarrow> string \<Rightarrow> string" where
  "str_strip_chars chars s = strip_where (\<lambda>c. c \<in> set chars) s"

text \<open>
  \<open>s.split(sep)\<close> for a one-character separator, generalised to a predicate on
  characters: every separator character ends a piece, so the result is never empty.
\<close>

fun split_where :: "(char \<Rightarrow> bool) \<Rightarrow> string \<Rightarrow> string list" where
  "split_where p [] = [[]]"
| "split_where p (c # cs) =
     (if p c then [] # split_where p cs
      else (case split_where p cs of
              [] \<Rightarrow> [[c]]
            | w # ws \<Rightarrow> (c # w) # ws))"

definition str_split :: "char \<Rightarrow> string \<Rightarrow> string list" where
  "str_split sep s = split_where (\<lambda>c. c = sep) s"

text \<open>\<open>s.split()\<close>: split at runs of whitespace, no empty pieces.\<close>

definition str_split_ws :: "string \<Rightarrow> string list" where
  "str_split_ws s = filter (\<lambda>w. w \<noteq> []) (split_where is_space s)"

text \<open>\<open>s.split(sep, 1)[1]\<close>: what follows the first separator; \<open>None\<close> is the
  \<open>IndexError\<close> of a string without separator.\<close>

definition after_first :: "char \<Rightarrow> string \<Rightarrow> string option" where
  "after_first sep s =
     (case dropWhile (\<lambda>c. c \<noteq> sep) s of [] \<Rightarrow> None | _ # rest \<Rightarrow> Some rest)"

text \<open>\<open>sep.join(parts)\<close>.\<close>

fun str_join :: "string \<Rightarrow> string list \<Rightarrow> string" where
  "str_join sep [] = []"
| "str_join sep [x] = x"
| "str_join sep (x # y # ys) = x @ sep @ str_join sep (y # ys)"

text \<open>\<open>sub in s\<close> is \<^const>\<open>sublist\<close>, \<open>s.startswith(p)\<close> is \<^const>\<open>prefix\<close>.\<close>

definition newline :: char where
  "newline = CHR 0x0A"

section \<open>The result record\<close>

text \<open>The dataclass \<open>ValidationResult\<close>; its field \<open>method\<close> is \<open>method_tag\<close> here,
  \<open>method\<close> being a keyword of Isabelle.\<close>

record ValidationResult =
  entity_id :: string
  entity_name :: string
  entity_type :: string
  description :: string
  confidence :: real
  is_hallucinated :: bool
  method_tag :: string
  issues :: "string list"
  validation_time :: real

section \<open>The LLM-prompt scorer: parsing the reply\<close>

text \<open>
  The \<open>CONFIDENCE:\<close> branch of \<open>_parse_api_response\<close>:
  \<open>float(line.split(':')[1].strip().split()[0])\<close> inside \<open>try\<close>, with \<open>0.0\<close> for
  every exception. Python's \<open>float\<close> is the parameter \<open>float_of\<close> (\<open>None\<close> is its
  \<open>ValueError\<close>); the values \<open>inf\<close> and \<open>nan\<close>, which are no reals, are left out.
\<close>

definition parse_confidence :: "(string \<Rightarrow> real option) \<Rightarrow> string \<Rightarrow> real" where
  "parse_confidence float_of line =
     (case str_split (CHR '':'') line of
        _ # seg # _ \<Rightarrow>
          (case str_split_ws (str_strip seg) of
             tok # _ \<Rightarrow> (case float_of tok of Some x \<Rightarrow> x | None \<Rightarrow> 0)
           | [] \<Rightarrow> 0)
      | _ \<Rightarrow> 0)"

text \<open>One pass of the loop over the lines; the state is
  \<open>(supported, raw_confidence, issues)\<close>.\<close>

definition parse_line ::
  "(string \<Rightarrow> real option) \<Rightarrow> bool \<times> real \<times> string list \<Rightarrow> string \<Rightarrow> bool \<times> real \<times> string list"
where
  "parse_line float_of st l =
     (let (supported, raw_confidence, issues) = st;
          line = str_strip l
      in
        if prefix ''SUPPORTED:'' line then
          (sublist ''YES'' (str_upper line), raw_confidence, issues)
        else if prefix ''CONFIDENCE:'' line then
          (supported, parse_confidence float_of line, issues)
        else if prefix ''ISSUES:'' line then
          (case after_first (CHR '':'') line of
             None \<Rightarrow> (supported, raw_confidence, issues)
           | Some rest \<Rightarrow>
               (let issues_text = str_strip rest in
                if str_lower issues_text \<in> set [''none'', ''none.'', '''']
                then (supported, raw_confidence, issues)
                else (supported, raw_confidence, [issues_text])))
        else (supported, raw_confidence, issues))"

text \<open>The three fields after the loop.\<close>

definition parse_fields ::
  "(string \<Rightarrow> real option) \<Rightarrow> string \<Rightarrow> bool \<times> real \<times> string list" where
  "parse_fields float_of response =
     foldl (parse_line float_of) (True, 0, []) (str_split newline (str_strip response))"

text \<open>\<open>GroqEntityValidator._parse_api_response\<close>.\<close>

definition parse_api_response ::
  "(string \<Rightarrow> real option) \<Rightarrow> string \<Rightarrow> real \<times> bool \<times> string list" where
  "parse_api_response float_of response =
     (let (supported, raw_confidence, issues) = parse_fields float_of response;
          confidence =
            (if supported
             then (if raw_confidence > 0.5 then 0.1 else raw_confidence)
             else (if raw_confidence < 0.5 then 0.8 else raw_confidence));
          is_hallucinated = \<not> supported
      in (confidence, is_hallucinated, issues))"

section \<open>Entities, source fragments and the outside world\<close>

text \<open>
  A row of \<open>entities.parquet\<close>. The column \<open>text_unit_ids\<close> holds either a sequence of
  identifiers or a string to be decoded by \<open>json.loads\<close>.
\<close>

datatype unit_ids = IdList "string list" | IdStr string

record entity_row =
  row_id :: string
  row_title :: string
  row_type :: string
  row_description :: string
  row_text_unit_ids :: unit_ids

text \<open>Exceptions that leave \<open>validate_entity\<close>.\<close>

datatype error = JSONDecodeError | OtherError string

text \<open>
  The prompts sent to the chat model, without their fixed wording: the kind of prompt and
  the four values interpolated into it. The reply is the \<open>content\<close> of the first choice,
  \<open>None\<close>, or an exception raised by the client (with its message).
\<close>

datatype prompt =
  ValidationPrompt string string string string
| SpotCheckPrompt string string string string

datatype llm_reply = ApiError string | NoContent | Content string

text \<open>
  What the validators call and do not define: \<open>json.loads\<close> (\<open>None\<close> when it raises),
  \<open>float\<close> (\<open>None\<close> when it raises), the chat completion, the entailment probability
  \<open>softmax(logits)[2]\<close> of the NLI model for a premise and a hypothesis, the clock
  (\<open>time.time() - start_time\<close> when the result is built) and the two number formats
  \<open>:.1%\<close> and \<open>:.2f\<close>.
\<close>

record env =
  py_json_loads :: "string \<Rightarrow> string list option"
  py_float :: "string \<Rightarrow> real option"
  llm_chat :: "prompt \<Rightarrow> llm_reply"
  nli_entailment :: "string \<Rightarrow> string \<Rightarrow> real"
  py_elapsed :: real
  fmt_percent :: "real \<Rightarrow> string"
  fmt_fixed2 :: "real \<Rightarrow> string"

text \<open>\<open>EntityValidator.get_source_texts\<close>; unknown identifiers are skipped.\<close>

definition get_source_texts ::
  "env \<Rightarrow> (string \<rightharpoonup> string) \<Rightarrow> entity_row \<Rightarrow> error + string list" where
  "get_source_texts e text_unit_map entity_row =
     (case (case row_text_unit_ids entity_row of
              IdList ids \<Rightarrow> Some ids
            | IdStr s \<Rightarrow> py_json_loads e s) of
        None \<Rightarrow> Inl JSONDecodeError
      | Some text_unit_ids \<Rightarrow> Inr (List.map_filter text_unit_map text_unit_ids))"

text \<open>The result every scorer returns for an entity without source texts.\<close>

definition no_source_result :: "env \<Rightarrow> entity_row \<Rightarrow> string \<Rightarrow> ValidationResult" where
  "no_source_result e entity_row m =
     \<lparr>entity_id = row_id entity_row,
      entity_name = row_title entity_row,
      entity_type = row_type entity_row,
      description = row_description entity_row,
      confidence = 0,
      is_hallucinated = False,
      method_tag = m,
      issues = [''No source texts available''],
      validation_time = py_elapsed e\<rparr>"

section \<open>The LLM-prompt scorer\<close>

definition context_separator :: string where
  "context_separator = [newline, newline] @ ''---'' @ [newline, newline]"

text \<open>\<open>GroqEntityValidator._build_validation_prompt\<close>: the first three source texts.\<close>

definition build_validation_prompt ::
  "string \<Rightarrow> string \<Rightarrow> string \<Rightarrow> string list \<Rightarrow> prompt" where
  "build_validation_prompt name etype descr source_texts =
     ValidationPrompt name etype descr (str_join context_separator (take 3 source_texts))"

text \<open>\<open>GroqEntityValidator.validate_entity\<close>.\<close>

definition groq_validate_entity ::
  "env \<Rightarrow> (string \<rightharpoonup> string) \<Rightarrow> entity_row \<Rightarrow> error + ValidationResult" where
  "groq_validate_entity e text_unit_map entity_row =
     (case get_source_texts e text_unit_map entity_row of
        Inl err \<Rightarrow> Inl err
      | Inr source_texts \<Rightarrow>
          if source_texts = [] then Inr (no_source_result e entity_row ''groq'')
          else
            (let prompt = build_validation_prompt (row_title entity_row) (row_type entity_row)
                            (row_description entity_row) source_texts;
                 (confidence, is_hallucinated, issues) =
                   (case llm_chat e prompt of
                      ApiError msg \<Rightarrow> (0, False, [''API error: '' @ msg])
                    | NoContent \<Rightarrow> (0, False, [''API error: API returned empty response''])
                    | Content content \<Rightarrow> parse_api_response (py_float e) (str_strip content))
             in Inr \<lparr>entity_id = row_id entity_row,
                     entity_name = row_title entity_row,
                     entity_type = row_type entity_row,
                     description = row_description entity_row,
                     confidence = confidence,
                     is_hallucinated = is_hallucinated,
                     method_tag = ''groq'',
                     issues = issues,
                     validation_time = py_elapsed e\<rparr>))"

section \<open>The local NLI scorer\<close>

text \<open>\<open>[s.strip() for s in description.split('.') if s.strip()]\<close>.\<close>

definition sentences_of :: "string \<Rightarrow> string list" where
  "sentences_of descr =
     map str_strip (filter (\<lambda>s. str_strip s \<noteq> []) (str_split (CHR ''.'') descr))"

text \<open>The inner loop: \<open>max_entailment\<close> starts at \<open>0.0\<close> and runs over the first three
  source texts, each cut to 1000 characters.\<close>

definition max_entailment :: "env \<Rightarrow> string list \<Rightarrow> string \<Rightarrow> real" where
  "max_entailment e source_texts sentence =
     foldl (\<lambda>m source_text. max m (nli_entailment e (take 1000 source_text) sentence))
       0 (take 3 source_texts)"

text \<open>The outer loop: sentences shorter than 10 characters are skipped.\<close>

definition contradiction_scores :: "env \<Rightarrow> string list \<Rightarrow> string \<Rightarrow> real list" where
  "contradiction_scores e source_texts descr =
     map (\<lambda>sentence. 1 - max_entailment e source_texts sentence)
       (filter (\<lambda>sentence. \<not> length sentence < 10) (sentences_of descr))"

text \<open>\<open>GPUNLIValidator.validate_entity\<close>.\<close>

definition gpu_nli_validate_entity ::
  "env \<Rightarrow> (string \<rightharpoonup> string) \<Rightarrow> entity_row \<Rightarrow> error + ValidationResult" where
  "gpu_nli_validate_entity e text_unit_map entity_row =
     (case get_source_texts e text_unit_map entity_row of
        Inl err \<Rightarrow> Inl err
      | Inr source_texts \<Rightarrow>
          if source_texts = [] then Inr (no_source_result e entity_row ''gpu_nli'')
          else
            (let scores = contradiction_scores e source_texts (row_description entity_row);
                 confidence =
                   (if scores \<noteq> [] then sum_list scores / real (length scores) else 0);
                 is_hallucinated = (confidence > 0.5);
                 issues =
                   (if is_hallucinated
                    then [''Description not well-supported by source texts (avg entailment: ''
                            @ fmt_fixed2 e (1 - confidence) @ '')'']
                    else [])
             in Inr \<lparr>entity_id = row_id entity_row,
                     entity_name = row_title entity_row,
                     entity_type = row_type entity_row,
                     description = row_description entity_row,
                     confidence = confidence,
                     is_hallucinated = is_hallucinated,
                     method_tag = ''gpu_nli'',
                     issues = issues,
                     validation_time = py_elapsed e\<rparr>))"

section \<open>The hybrid scorer\<close>

text \<open>The characters of \<open>word.strip('.,;:!?()"\'')\<close>.\<close>

definition punctuation :: string where
  "punctuation = ''.,;:!?()'' @ [CHR 0x22, CHR 0x27]"

text \<open>\<open>" ".join(source_texts).lower()\<close>.\<close>

definition combined_source :: "string list \<Rightarrow> string" where
  "combined_source source_texts = str_lower (str_join '' '' source_texts)"

text \<open>The key terms: the whitespace-separated words of the lower-cased description with
  more than three characters, all of them letters, stripped of punctuation.\<close>

definition key_terms :: "string \<Rightarrow> string list" where
  "key_terms descr =
     map (str_strip_chars punctuation)
       (filter (\<lambda>word. length word > 3 \<and> str_isalpha word) (str_split_ws (str_lower descr)))"

definition found_terms :: "string \<Rightarrow> string list \<Rightarrow> nat" where
  "found_terms descr source_texts =
     length (filter (\<lambda>term. sublist term (combined_source source_texts)) (key_terms descr))"

definition coverage :: "string \<Rightarrow> string list \<Rightarrow> real" where
  "coverage descr source_texts =
     (if key_terms descr \<noteq> []
      then real (found_terms descr source_texts) / real (length (key_terms descr))
      else 0)"

definition name_found :: "string \<Rightarrow> string list \<Rightarrow> bool" where
  "name_found name source_texts = sublist (str_lower name) (combined_source source_texts)"

text \<open>The lines \<open>REASON: ...\<close> of the reply, each without its label.\<close>

definition reasons_of :: "string \<Rightarrow> string list" where
  "reasons_of answer =
     concat (map (\<lambda>line.
                    if prefix ''REASON:'' line
                    then (case after_first (CHR '':'') line of
                            Some rest \<Rightarrow> [str_strip rest]
                          | None \<Rightarrow> [])
                    else [])
               (str_split newline answer))"

text \<open>\<open>HybridValidator._groq_spot_check\<close>. Every exception inside its \<open>try\<close> gives
  the conservative result.\<close>

definition groq_spot_check ::
  "env \<Rightarrow> string \<Rightarrow> string \<Rightarrow> string \<Rightarrow> string list \<Rightarrow> ValidationResult" where
  "groq_spot_check e name etype descr source_texts =
     (let context = str_join context_separator (take 3 source_texts);
          failed = (\<lambda>msg.
            \<lparr>entity_id = [],
             entity_name = name,
             entity_type = etype,
             description = descr,
             confidence = 0.5,
             is_hallucinated = False,
             method_tag = ''hybrid_groq'',
             issues = [''API error: '' @ msg],
             validation_time = 0\<rparr>)
      in case llm_chat e (SpotCheckPrompt name etype descr context) of
           ApiError msg \<Rightarrow> failed msg
         | NoContent \<Rightarrow> failed ''API returned empty response''
         | Content content \<Rightarrow>
             (let answer = str_strip content;
                  is_hallucinated = sublist ''HALLUCINATED'' (str_upper answer);
                  confidence = (if is_hallucinated then 0.7 else 0.3);
                  issues = reasons_of answer
              in \<lparr>entity_id = [],
                   entity_name = name,
                   entity_type = etype,
                   description = descr,
                   confidence = confidence,
                   is_hallucinated = is_hallucinated,
                   method_tag = ''hybrid_groq'',
                   issues = issues,
                   validation_time = 0\<rparr>))"

text \<open>\<open>HybridValidator.validate_entity\<close>; \<open>groq_available\<close> is the attribute set by
  the constructor.\<close>

definition hybrid_validate_entity ::
  "env \<Rightarrow> (string \<rightharpoonup> string) \<Rightarrow> bool \<Rightarrow> entity_row \<Rightarrow> error + ValidationResult" where
  "hybrid_validate_entity e text_unit_map groq_available entity_row =
     (case get_source_texts e text_unit_map entity_row of
        Inl err \<Rightarrow> Inl err
      | Inr source_texts \<Rightarrow>
          if source_texts = [] then Inr (no_source_result e entity_row ''hybrid'')
          else
            (let cov = coverage (row_description entity_row) source_texts;
                 found = name_found (row_title entity_row) source_texts;
                 text_result = (\<lambda>c h iss.
                   \<lparr>entity_id = row_id entity_row,
                    entity_name = row_title entity_row,
                    entity_type = row_type entity_row,
                    description = row_description entity_row,
                    confidence = c,
                    is_hallucinated = h,
                    method_tag = ''hybrid_text'',
                    issues = iss,
                    validation_time = py_elapsed e\<rparr>)
             in
               if cov > 0.7 \<and> found then Inr (text_result 0.1 False [])
               else if cov < 0.3 \<or> \<not> found then
                 Inr (text_result 0.8 True
                        ((if \<not> found
                          then [''Entity name '' @ [CHR 0x27] @ row_title entity_row @ [CHR 0x27]
                                  @ '' not found in source texts'']
                          else [])
                         @ (if cov < 0.3
                            then [''Low term coverage ('' @ fmt_percent e cov @ '')'']
                            else [])))
               else if groq_available then
                 (let groq_result = groq_spot_check e (row_title entity_row)
                                      (row_type entity_row) (row_description entity_row)
                                      source_texts
                  in Inr (groq_result\<lparr>validation_time := py_elapsed e,
                                      method_tag := ''hybrid_groq''\<rparr>))
               else
                 Inr (text_result 0.5 (cov < 0.5)
                        [''Uncertain (coverage: '' @ fmt_percent e cov @ '')''])))"

section \<open>The batch runner\<close>

text \<open>\<open>DataFrame.head(n)\<close>: the first \<open>n\<close> rows, or all but the last \<open>-n\<close> rows for
  a negative \<open>n\<close>.\<close>

definition head :: "int \<Rightarrow> 'a list \<Rightarrow> 'a list" where
  "head n xs = (if 0 \<le> n then take (nat n) xs else take (length xs - nat (- n)) xs)"

text \<open>The work queue of \<open>validate_batch\<close>: the rows whose identifier is not among the
  processed ones, cut by \<open>head\<close> when \<open>limit\<close> is truthy (neither \<open>None\<close> nor 0).\<close>

definition entities_to_process ::
  "entity_row list \<Rightarrow> string set \<Rightarrow> int option \<Rightarrow> entity_row list" where
  "entities_to_process entities_df processed_ids limit =
     (let todo = filter (\<lambda>row. row_id row \<notin> processed_ids) entities_df
      in case limit of
           None \<Rightarrow> todo
         | Some n \<Rightarrow> if n \<noteq> 0 then head n todo else todo)"

text \<open>
  The loop of \<open>validate_batch\<close>. The state is the list \<open>results\<close> and the content of the
  checkpoint file (\<open>None\<close> while the file does not exist); \<open>_save_results\<close> replaces the
  content by the whole list. An exception of the scorer skips the row.
\<close>

fun batch_loop ::
  "(entity_row \<Rightarrow> error + ValidationResult) \<Rightarrow> entity_row list \<Rightarrow>
   ValidationResult list \<times> ValidationResult list option \<Rightarrow>
   ValidationResult list \<times> ValidationResult list option" where
  "batch_loop validate_entity [] st = st"
| "batch_loop validate_entity (row # rows) (results, file) =
     (case validate_entity row of
        Inl err \<Rightarrow> batch_loop validate_entity rows (results, file)
      | Inr result \<Rightarrow>
          (let results' = results @ [result];
               file' = (if length results' mod 10 = 0 then Some results' else file)
           in batch_loop validate_entity rows (results', file')))"

text \<open>The results loaded before the loop: the checkpoint, when resuming and the file
  exists.\<close>

definition loaded_results ::
  "ValidationResult list option \<Rightarrow> bool \<Rightarrow> ValidationResult list" where
  "loaded_results file resume =
     (if resume then (case file of Some cached \<Rightarrow> cached | None \<Rightarrow> []) else [])"

text \<open>\<open>EntityValidator.validate_batch\<close>: the returned list and the file after the final
  save.\<close>

definition validate_batch ::
  "(entity_row \<Rightarrow> error + ValidationResult) \<Rightarrow> entity_row list \<Rightarrow>
   ValidationResult list option \<Rightarrow> int option \<Rightarrow> bool \<Rightarrow>
   ValidationResult list \<times> ValidationResult list option" where
  "validate_batch validate_entity entities_df file limit resume =
     (let results = loaded_results file resume;
          processed_ids = set (map entity_id results);
          todo = entities_to_process entities_df processed_ids limit;
          (results', file') = batch_loop validate_entity todo (results, file)
      in (results', Some results'))"

text \<open>A run interrupted after \<open>k\<close> passes of the loop: the state then, before any final
  save.\<close>

definition interrupted_batch ::
  "(entity_row \<Rightarrow> error + ValidationResult) \<Rightarrow> entity_row list \<Rightarrow>
   ValidationResult list option \<Rightarrow> int option \<Rightarrow> bool \<Rightarrow> nat \<Rightarrow>
   ValidationResult list \<times> ValidationResult list option" where
  "interrupted_batch validate_entity entities_df file limit resume k =
     (let results = loaded_results file resume;
          processed_ids = set (map entity_id results);
          todo = entities_to_process entities_df processed_ids limit
      in batch_loop validate_entity (take k todo) (results, file))"

text \<open>The results a scorer gives on a list of rows, failures left out.\<close>

definition successes ::
  "(entity_row \<Rightarrow> error + ValidationResult) \<Rightarrow> entity_row list \<Rightarrow> ValidationResult list" where
  "successes validate_entity rows =
     concat (map (\<lambda>row. case validate_entity row of Inl err \<Rightarrow> [] | Inr r \<Rightarrow> [r]) rows)"

section \<open>A decimal reader for concrete replies\<close>

text \<open>
  Python's \<open>float\<close> on plain decimal literals: optional sign, digits, optional point and
  digits, surrounded by whitespace. It stands for \<open>float\<close> where a reply is evaluated;
  exponents, underscores, \<open>inf\<close> and \<open>nan\<close> are outside it.
\<close>

definition is_digit :: "char \<Rightarrow> bool" where
  "is_digit c = (let n = (of_char c :: nat) in 48 \<le> n \<and> n \<le> 57)"

definition digits_value :: "string \<Rightarrow> nat" where
  "digits_value ds = foldl (\<lambda>acc c. 10 * acc + (of_char c - 48)) 0 ds"

definition float_decimal :: "string \<Rightarrow> real option" where
  "float_decimal s =
     (let t = str_strip s;
          (negative, u) =
            (case t of
               [] \<Rightarrow> (False, t)
             | c # r \<Rightarrow>
                 if c = CHR ''-'' then (True, r)
                 else if c = CHR ''+'' then (False, r)
                 else (False, t));
          ip = takeWhile is_digit u;
          rest = dropWhile is_digit u;
          fp = (case rest of
                  [] \<Rightarrow> Some []
                | c # r \<Rightarrow> if c = CHR ''.'' then Some r else None)
      in case fp of
           None \<Rightarrow> None
         | Some ds \<Rightarrow>
             if list_all is_digit ds \<and> (ip \<noteq> [] \<or> ds \<noteq> [])
             then Some ((if negative then - 1 else 1)
                        * (real (digits_value ip) + real (digits_value ds) / 10 ^ length ds))
             else None)"

section \<open>Reference definitions, in the words of the specification\<close>

text \<open>The reconciliation rule of the LLM-prompt scorer: clamp to 0.1 when supported with
  a raw confidence above 0.5, clamp to 0.8 when unsupported with a raw confidence below
  0.5, keep the raw value otherwise.\<close>

definition reconcile_spec :: "bool \<Rightarrow> real \<Rightarrow> real" where
  "reconcile_spec supported c =
     (if supported \<and> c > 0.5 then 0.1 else if \<not> supported \<and> c < 0.5 then 0.8 else c)"

text \<open>
  The NLI scorer. A sentence qualifies when it has at least 10 characters; its score is
  1 minus the greatest entailment probability over the first three source texts, each
  cut to 1000 characters; the confidence is the mean of the scores, 0 without any.
\<close>

definition qualifying_sentences :: "string \<Rightarrow> string list" where
  "qualifying_sentences descr = filter (\<lambda>s. 10 \<le> length s) (sentences_of descr)"

definition best_entailment :: "env \<Rightarrow> string list \<Rightarrow> string \<Rightarrow> real" where
  "best_entailment e source_texts sentence =
     Max ((\<lambda>source_text. nli_entailment e (take 1000 source_text) sentence)
            ` set (take 3 source_texts))"

definition sentence_score_spec :: "env \<Rightarrow> string list \<Rightarrow> string \<Rightarrow> real" where
  "sentence_score_spec e source_texts sentence = 1 - best_entailment e source_texts sentence"

definition nli_confidence_spec :: "env \<Rightarrow> string list \<Rightarrow> string \<Rightarrow> real" where
  "nli_confidence_spec e source_texts descr =
     (let scores = map (sentence_score_spec e source_texts) (qualifying_sentences descr)
      in if scores = [] then 0 else sum_list scores / real (length scores))"

section \<open>Concrete inputs\<close>

text \<open>
  An outside world for the examples: the chat model answers every prompt with the given
  reply, the NLI model gives entailment 1 to a hypothesis that occurs in the premise and
  0.25 to any other, every call takes two seconds. The examples decode no JSON but the
  string \<open>not json\<close>, which \<open>json.loads\<close> rejects, and look at no formatted number.
\<close>

definition example_env :: "llm_reply \<Rightarrow> env" where
  "example_env reply =
     \<lparr>py_json_loads = (\<lambda>s. None),
      py_float = float_decimal,
      llm_chat = (\<lambda>p. reply),
      nli_entailment = (\<lambda>premise hypothesis. if sublist hypothesis premise then 1 else 1 / 4),
      py_elapsed = 2,
      fmt_percent = (\<lambda>x. []),
      fmt_fixed2 = (\<lambda>x. [])\<rparr>"

definition example_units :: "string \<rightharpoonup> string" where
  "example_units = [''t1'' \<mapsto> ''Ada alpha beta'']"

text \<open>Half of the four key terms of the description occur in the source text, and so
  does the name.\<close>

definition ada :: entity_row where
  "ada =
     \<lparr>row_id = ''e1'', row_title = ''Ada'', row_type = ''PERSON'',
      row_description = ''alpha beta gamma delta'', row_text_unit_ids = IdList [''t1'']\<rparr>"

text \<open>All key terms occur.\<close>

definition ada_covered :: entity_row where
  "ada_covered = ada\<lparr>row_description := ''alpha beta''\<rparr>"

text \<open>No key term occurs.\<close>

definition ada_uncovered :: entity_row where
  "ada_uncovered = ada\<lparr>row_description := ''gamma delta''\<rparr>"

text \<open>The only text unit of this entity is unknown.\<close>

definition orphan :: entity_row where
  "orphan =
     \<lparr>row_id = ''e2'', row_title = ''Bob'', row_type = ''PERSON'',
      row_description = ''Bob invented everything.'', row_text_unit_ids = IdList [''t9'']\<rparr>"

text \<open>The three replies of the specification's reconciliation examples.\<close>

definition reply_yes_high :: string where
  "reply_yes_high =
     ''SUPPORTED: YES'' @ [newline] @ ''CONFIDENCE: 0.9'' @ [newline] @ ''ISSUES: None''"

definition reply_no_low :: string where
  "reply_no_low =
     ''SUPPORTED: NO'' @ [newline] @ ''CONFIDENCE: 0.2'' @ [newline] @ ''ISSUES: None''"

definition reply_yes_low :: string where
  "reply_yes_low =
     ''SUPPORTED: YES'' @ [newline] @ ''CONFIDENCE: 0.3'' @ [newline] @ ''ISSUES: None''"

text \<open>A reply with a confidence outside the range the prompt asks for.\<close>

definition reply_out_of_range :: string where
  "reply_out_of_range = ''SUPPORTED: NO'' @ [newline] @ ''CONFIDENCE: 5''"

text \<open>Two replies to the spot check with the verdict \<open>ACCURATE\<close>; the reason of the
  second one contains the word \<open>hallucinated\<close>.\<close>

definition reply_accurate :: string where
  "reply_accurate =
     ''VERDICT: ACCURATE'' @ [newline] @ ''CONFIDENCE: 0.9'' @ [newline]
       @ ''REASON: Half of the terms appear.''"

definition reply_accurate_wording :: string where
  "reply_accurate_wording =
     ''VERDICT: ACCURATE'' @ [newline] @ ''CONFIDENCE: 0.9'' @ [newline]
       @ ''REASON: Nothing here is hallucinated.''"

text \<open>Entities for the NLI scorer: two sentences that qualify, of which the first occurs
  in a source text, and a third that is too short; only the entailed sentence; only short
  sentences.\<close>

definition grace_units :: "string \<rightharpoonup> string" where
  "grace_units =
     [''t2'' \<mapsto> ''Admiral Grace wrote compilers for the navy'',
      ''t3'' \<mapsto> ''Nothing about the moon'']"

definition grace :: entity_row where
  "grace =
     \<lparr>row_id = ''e3'', row_title = ''Grace'', row_type = ''PERSON'',
      row_description = ''Grace wrote compilers. Grace flew to the moon. Yes.'',
      row_text_unit_ids = IdList [''t2'', ''t3'']\<rparr>"

definition grace_entailed :: entity_row where
  "grace_entailed = grace\<lparr>row_description := ''Grace wrote compilers.''\<rparr>"

definition grace_short :: entity_row where
  "grace_short = grace\<lparr>row_description := ''Yes. No. Maybe.''\<rparr>"

text \<open>An entity whose \<open>text_unit_ids\<close> cannot be decoded.\<close>

definition broken_row :: entity_row where
  "broken_row =
     \<lparr>row_id = ''e4'', row_title = ''Eve'', row_type = ''PERSON'',
      row_description = ''Eve listens.'', row_text_unit_ids = IdStr ''not json''\<rparr>"

text \<open>A corpus of 25 entities without text units, scored by the LLM-prompt scorer.\<close>

definition plain_row :: "string \<Rightarrow> entity_row" where
  "plain_row i =
     \<lparr>row_id = i, row_title = ''Item'', row_type = ''THING'',
      row_description = ''An item without sources.'', row_text_unit_ids = IdList []\<rparr>"

definition rows25 :: "entity_row list" where
  "rows25 = map plain_row
     [''e01'', ''e02'', ''e03'', ''e04'', ''e05'', ''e06'', ''e07'', ''e08'', ''e09'', ''e10'',
      ''e11'', ''e12'', ''e13'', ''e14'', ''e15'', ''e16'', ''e17'', ''e18'', ''e19'', ''e20'',
      ''e21'', ''e22'', ''e23'', ''e24'', ''e25'']"

definition example_scorer :: "entity_row \<Rightarrow> error + ValidationResult" where
  "example_scorer = groq_validate_entity (example_env NoContent) example_units"

text \<open>A first run limited to three entities, and a second run that resumes from its
  checkpoint and is interrupted after ten passes of the loop.\<close>

definition first_run :: "ValidationResult list \<times> ValidationResult list option" where
  "first_run = validate_batch example_scorer rows25 None (Some 3) False"

definition resumed_run :: "ValidationResult list \<times> ValidationResult list option" where
  "resumed_run = interrupted_batch example_scorer rows25 (snd first_run) None True 10"

section \<open>Entities without source texts\<close>

lemma no_source_result_fields:
  "confidence (no_source_result e row m) = 0"
  "\<not> is_hallucinated (no_source_result e row m)"
  "issues (no_source_result e row m) = [''No source texts available'']"
  by (simp_all add: no_source_result_def)

text \<open>
  C1. When the resolved list of source texts of an entity is empty, each of the three
  scorers returns a result with confidence 0, not flagged, whose only issue is
  \<open>No source texts available\<close>; the description plays no part.
\<close>

theorem no_source_texts_fail_open:
  assumes "get_source_texts e text_unit_map row = Inr []"
  shows "(\<exists>r. groq_validate_entity e text_unit_map row = Inr r \<and> confidence r = 0 \<and>
              \<not> is_hallucinated r \<and> issues r = [''No source texts available'']) \<and>
         (\<exists>r. gpu_nli_validate_entity e text_unit_map row = Inr r \<and> confidence r = 0 \<and>
              \<not> is_hallucinated r \<and> issues r = [''No source texts available'']) \<and>
         (\<exists>r. hybrid_validate_entity e text_unit_map groq_available row = Inr r \<and>
              confidence r = 0 \<and> \<not> is_hallucinated r \<and>
              issues r = [''No source texts available''])"
  using assms
  by (simp add: groq_validate_entity_def gpu_nli_validate_entity_def
      hybrid_validate_entity_def no_source_result_fields)

theorem no_source_texts_fail_open_witness:
  "get_source_texts (example_env NoContent) example_units orphan = Inr [] \<and>
   (\<exists>r. groq_validate_entity (example_env NoContent) example_units orphan = Inr r \<and>
        confidence r = 0 \<and> \<not> is_hallucinated r \<and>
        issues r = [''No source texts available'']) \<and>
   (\<exists>r. gpu_nli_validate_entity (example_env NoContent) example_units orphan = Inr r \<and>
        confidence r = 0 \<and> \<not> is_hallucinated r \<and>
        issues r = [''No source texts available'']) \<and>
   (\<exists>r. hybrid_validate_entity (example_env NoContent) example_units True orphan = Inr r \<and>
        confidence r = 0 \<and> \<not> is_hallucinated r \<and>
        issues r = [''No source texts available''])"
proof -
  have h: "get_source_texts (example_env NoContent) example_units orphan = Inr []"
    by code_simp
  show ?thesis
    using h no_source_texts_fail_open [OF h, of True] by simp
qed

section \<open>Reconciliation of the LLM reply\<close>

text \<open>The scorer reports what the parser returns for the stripped reply.\<close>

lemma groq_result_of_reply:
  assumes "get_source_texts e text_unit_map row = Inr source_texts"
    and "source_texts \<noteq> []"
    and "llm_chat e (build_validation_prompt (row_title row) (row_type row)
           (row_description row) source_texts) = Content content"
  shows "\<exists>r. groq_validate_entity e text_unit_map row = Inr r \<and>
           (confidence r, is_hallucinated r, issues r) =
             parse_api_response (py_float e) (str_strip content)"
  using assms
  by (simp add: groq_validate_entity_def Let_def split: prod.splits)

text \<open>
  C2. For every reply, with \<open>supported\<close> and \<open>c\<close> the flag and the raw confidence read
  from it: the reported confidence is 0.1 when supported and \<open>c > 0.5\<close>, 0.8 when not
  supported and \<open>c < 0.5\<close>, and \<open>c\<close> otherwise; the entity is flagged exactly when it is
  not supported, whatever \<open>c\<close> is. This holds of what \<open>_parse_api_response\<close> returns and
  of the result the scorer builds from it.
\<close>

theorem parse_api_response_reconciliation:
  "parse_api_response float_of response =
     (case parse_fields float_of response of
        (supported, c, iss) \<Rightarrow> (reconcile_spec supported c, \<not> supported, iss)) \<and>
   (get_source_texts e text_unit_map row = Inr source_texts \<and> source_texts \<noteq> [] \<and>
    llm_chat e (build_validation_prompt (row_title row) (row_type row)
      (row_description row) source_texts) = Content content \<longrightarrow>
      (\<exists>r. groq_validate_entity e text_unit_map row = Inr r \<and>
         (case parse_fields (py_float e) (str_strip content) of
            (supported, c, iss) \<Rightarrow>
              confidence r = reconcile_spec supported c \<and>
              is_hallucinated r = (\<not> supported))))"
proof -
  have parse: "parse_api_response f s =
     (case parse_fields f s of
        (supported, c, iss) \<Rightarrow> (reconcile_spec supported c, \<not> supported, iss))" for f s
    by (simp add: parse_api_response_def reconcile_spec_def split: prod.splits)
  have scorer: "\<exists>r. groq_validate_entity e text_unit_map row = Inr r \<and>
         (case parse_fields (py_float e) (str_strip content) of
            (supported, c, iss) \<Rightarrow>
              confidence r = reconcile_spec supported c \<and>
              is_hallucinated r = (\<not> supported))"
    if src: "get_source_texts e text_unit_map row = Inr source_texts"
      and ne: "source_texts \<noteq> []"
      and reply: "llm_chat e (build_validation_prompt (row_title row) (row_type row)
        (row_description row) source_texts) = Content content"
  proof -
    obtain r where r: "groq_validate_entity e text_unit_map row = Inr r"
      and fields: "(confidence r, is_hallucinated r, issues r) =
                     parse_api_response (py_float e) (str_strip content)"
      using groq_result_of_reply [OF src ne reply] by blast
    show ?thesis
      using r fields unfolding parse by (auto split: prod.splits)
  qed
  show ?thesis using parse scorer by blast
qed

theorem parse_api_response_reconciliation_witness:
  "parse_api_response float_decimal reply_yes_high = (1 / 10, False, []) \<and>
   parse_api_response float_decimal reply_no_low = (8 / 10, True, []) \<and>
   parse_api_response float_decimal reply_yes_low = (3 / 10, False, []) \<and>
   (\<exists>r. groq_validate_entity (example_env (Content reply_no_low)) example_units ada = Inr r \<and>
        confidence r = 8 / 10 \<and> is_hallucinated r)"
proof -
  let ?e = "example_env (Content reply_no_low)"
  have 1: "parse_fields float_decimal reply_yes_high = (True, 9 / 10, [])"
    by code_simp
  have 2: "parse_fields float_decimal reply_no_low = (False, 2 / 10, [])"
    by code_simp
  have 3: "parse_fields float_decimal reply_yes_low = (True, 3 / 10, [])"
    by code_simp
  have s: "get_source_texts ?e example_units ada = Inr [''Ada alpha beta'']"
    by code_simp
  have reply: "llm_chat ?e (build_validation_prompt (row_title ada) (row_type ada)
      (row_description ada) [''Ada alpha beta'']) = Content reply_no_low"
    by (simp add: example_env_def)
  have 4: "parse_fields (py_float ?e) (str_strip reply_no_low) = (False, 2 / 10, [])"
    by code_simp
  have "\<exists>r. groq_validate_entity ?e example_units ada = Inr r \<and>
          confidence r = 8 / 10 \<and> is_hallucinated r"
    using parse_api_response_reconciliation
            [of float_decimal reply_no_low ?e example_units ada "[''Ada alpha beta'']" reply_no_low]
          s reply
    by (simp add: 4 reconcile_spec_def)
  then show ?thesis
    using parse_api_response_reconciliation [of float_decimal reply_yes_high]
      parse_api_response_reconciliation [of float_decimal reply_no_low]
      parse_api_response_reconciliation [of float_decimal reply_yes_low]
    by (simp add: 1 2 3 reconcile_spec_def)
qed

section \<open>The decision table of the hybrid scorer\<close>

text \<open>
  C3. For an entity with at least one source text the hybrid scorer decides from the
  coverage and from whether the name was found, in this order: coverage above 0.7 with
  the name found gives confidence 0.1, not flagged; coverage below 0.3 or the name not
  found gives confidence 0.8, flagged; in the remaining band, without a configured LLM,
  the confidence is 0.5 and the entity is flagged exactly when the coverage is below 0.5.
\<close>

theorem hybrid_decision_table:
  assumes "get_source_texts e text_unit_map row = Inr source_texts"
    and "source_texts \<noteq> []"
  shows "\<exists>r. hybrid_validate_entity e text_unit_map groq_available row = Inr r \<and>
     (let cov = coverage (row_description row) source_texts;
          found = name_found (row_title row) source_texts
      in if cov > 0.7 \<and> found then confidence r = 0.1 \<and> \<not> is_hallucinated r
         else if cov < 0.3 \<or> \<not> found then confidence r = 0.8 \<and> is_hallucinated r
         else (\<not> groq_available \<longrightarrow> confidence r = 0.5 \<and> is_hallucinated r = (cov < 0.5)))"
  using assms
  by (simp add: hybrid_validate_entity_def Let_def)

theorem hybrid_decision_table_witness:
  "(\<exists>r. hybrid_validate_entity (example_env NoContent) example_units False ada_covered = Inr r \<and>
        confidence r = 1 / 10 \<and> \<not> is_hallucinated r) \<and>
   (\<exists>r. hybrid_validate_entity (example_env NoContent) example_units False ada_uncovered = Inr r \<and>
        confidence r = 8 / 10 \<and> is_hallucinated r) \<and>
   (\<exists>r. hybrid_validate_entity (example_env NoContent) example_units False ada = Inr r \<and>
        confidence r = 1 / 2 \<and> \<not> is_hallucinated r)"
proof -
  let ?e = "example_env NoContent"
  let ?src = "[''Ada alpha beta'']"
  have s1: "get_source_texts ?e example_units ada_covered = Inr ?src" by code_simp
  have s2: "get_source_texts ?e example_units ada_uncovered = Inr ?src" by code_simp
  have s3: "get_source_texts ?e example_units ada = Inr ?src" by code_simp
  have ne: "?src \<noteq> []" by simp
  have c1: "coverage (row_description ada_covered) ?src = 1" by code_simp
  have c2: "coverage (row_description ada_uncovered) ?src = 0" by code_simp
  have c3: "coverage (row_description ada) ?src = 1 / 2" by code_simp
  have n1: "name_found (row_title ada_covered) ?src" by code_simp
  have n2: "name_found (row_title ada_uncovered) ?src" by code_simp
  have n3: "name_found (row_title ada) ?src" by code_simp
  show ?thesis
    using hybrid_decision_table [OF s1 ne, of False]
      hybrid_decision_table [OF s2 ne, of False]
      hybrid_decision_table [OF s3 ne, of False]
    by (simp add: c1 c2 c3 n1 n2 n3)
qed

section \<open>The range of the confidence\<close>

text \<open>The reconciliation keeps a raw confidence between 0 and 1 in that range; nothing
  in \<open>_parse_api_response\<close> brings another one back into it.\<close>

lemma reconcile_spec_in_range:
  assumes "0 \<le> c" and "c \<le> 1"
  shows "0 \<le> reconcile_spec supported c \<and> reconcile_spec supported c \<le> 1"
  using assms by (simp add: reconcile_spec_def)

text \<open>The hybrid scorer only reports constants, and the NLI scorer a mean of numbers
  between 0 and 1 when the entailment probabilities are.\<close>

lemma hybrid_confidence_in_range:
  assumes "hybrid_validate_entity e text_unit_map groq_available row = Inr r"
  shows "0 \<le> confidence r \<and> confidence r \<le> 1"
  using assms
  by (auto simp: hybrid_validate_entity_def no_source_result_def groq_spot_check_def Let_def
      split: sum.splits if_splits llm_reply.splits)

lemma sum_list_bounds:
  fixes xs :: "real list"
  assumes "\<forall>x\<in>set xs. 0 \<le> x \<and> x \<le> 1"
  shows "0 \<le> sum_list xs \<and> sum_list xs \<le> real (length xs)"
  using assms by (induction xs) auto

lemma max_entailment_in_range:
  assumes "\<forall>p h. 0 \<le> nli_entailment e p h \<and> nli_entailment e p h \<le> 1"
  shows "0 \<le> max_entailment e source_texts s \<and> max_entailment e source_texts s \<le> 1"
proof -
  have "0 \<le> foldl (\<lambda>m x. max m (nli_entailment e (take 1000 x) s)) m0 xs \<and>
        foldl (\<lambda>m x. max m (nli_entailment e (take 1000 x) s)) m0 xs \<le> 1"
    if "0 \<le> m0" and "m0 \<le> 1" for m0 :: real and xs
    using that assms
  proof (induction xs arbitrary: m0)
    case Nil
    then show ?case by simp
  next
    case (Cons x xs)
    have "0 \<le> max m0 (nli_entailment e (take 1000 x) s)"
      using Cons.prems(1) by simp
    moreover have "max m0 (nli_entailment e (take 1000 x) s) \<le> 1"
      using Cons.prems(2,3) by simp
    ultimately show ?case using Cons.IH Cons.prems(3) by simp
  qed
  then show ?thesis by (simp add: max_entailment_def)
qed

lemma gpu_nli_confidence_in_range:
  assumes "gpu_nli_validate_entity e text_unit_map row = Inr r"
    and "\<forall>p h. 0 \<le> nli_entailment e p h \<and> nli_entailment e p h \<le> 1"
  shows "0 \<le> confidence r \<and> confidence r \<le> 1"
proof -
  have mean: "0 \<le> sum_list xs / real (length xs) \<and> sum_list xs / real (length xs) \<le> 1"
    if "\<forall>x\<in>set xs. 0 \<le> x \<and> x \<le> 1" and "xs \<noteq> []" for xs :: "real list"
  proof -
    have "0 < real (length xs)" using that(2) by simp
    then show ?thesis using sum_list_bounds [OF that(1)] by (simp add: field_simps)
  qed
  have scores: "\<forall>x\<in>set (contradiction_scores e srcs d). 0 \<le> x \<and> x \<le> 1" for srcs d
    using max_entailment_in_range [OF assms(2)]
    by (auto simp: contradiction_scores_def)
  show ?thesis
    using assms(1) mean [OF scores]
    by (auto simp: gpu_nli_validate_entity_def no_source_result_def Let_def
        split: sum.splits if_splits)
qed

text \<open>
  C4. The claim is that the confidence of every result of every scorer lies between 0
  and 1, whatever the LLM replies. The reply \<open>SUPPORTED: NO\<close>, \<open>CONFIDENCE: 5\<close> makes
  the LLM-prompt scorer return the confidence 5.
\<close>

theorem groq_confidence_out_of_range:
  "groq_validate_entity (example_env (Content reply_out_of_range)) example_units ada =
     Inr \<lparr>entity_id = ''e1'', entity_name = ''Ada'', entity_type = ''PERSON'',
          description = ''alpha beta gamma delta'', confidence = 5, is_hallucinated = True,
          method_tag = ''groq'', issues = [], validation_time = 2\<rparr>"
  by code_simp

section \<open>The NLI scorer\<close>

lemma foldl_max_Max:
  fixes m :: real
  shows "foldl max m xs = Max (set (m # xs))"
proof -
  have "(\<lambda>x s. max s x) = (max :: real \<Rightarrow> real \<Rightarrow> real)"
    by (intro ext) (simp add: max.commute)
  then have "foldl max m xs = fold max xs m"
    by (simp add: foldl_conv_fold)
  then show ?thesis
    by (metis Max.set_eq_fold)
qed

lemma sum_list_all_zero:
  fixes f :: "'a \<Rightarrow> real"
  shows "\<forall>x\<in>set xs. f x = 0 \<Longrightarrow> sum_list (map f xs) = 0"
  by (induction xs) auto

text \<open>The running maximum that starts at 0 is the greatest entailment probability, as
  soon as there is a source text and probabilities are not negative.\<close>

lemma max_entailment_best:
  assumes "source_texts \<noteq> []" and "\<forall>p h. 0 \<le> nli_entailment e p h"
  shows "max_entailment e source_texts sentence = best_entailment e source_texts sentence"
proof -
  let ?f = "\<lambda>source_text. nli_entailment e (take 1000 source_text) sentence"
  let ?xs = "map ?f (take 3 source_texts)"
  have ne: "set ?xs \<noteq> {}" using assms(1) by simp
  have "max_entailment e source_texts sentence = foldl max 0 ?xs"
    by (simp add: max_entailment_def foldl_map)
  also have "\<dots> = Max (insert 0 (set ?xs))"
    by (simp add: foldl_max_Max)
  also have "\<dots> = max 0 (Max (set ?xs))"
    using ne by simp
  also have "\<dots> = Max (set ?xs)"
  proof -
    have "\<exists>x\<in>set ?xs. 0 \<le> x"
      using assms by (cases source_texts) auto
    then have "0 \<le> Max (set ?xs)"
      using ne by (subst Max_ge_iff) auto
    then show ?thesis by simp
  qed
  finally show ?thesis
    by (simp add: best_entailment_def)
qed

lemma contradiction_scores_spec:
  assumes "source_texts \<noteq> []" and "\<forall>p h. 0 \<le> nli_entailment e p h"
  shows "contradiction_scores e source_texts descr =
           map (sentence_score_spec e source_texts) (qualifying_sentences descr)"
  using max_entailment_best [OF assms]
  by (simp add: contradiction_scores_def qualifying_sentences_def sentence_score_spec_def
      not_less)

text \<open>
  C9. For an entity with at least one source text (and an NLI model whose probabilities
  are not negative) the NLI scorer returns as confidence the mean, over the sentences of
  at least 10 characters, of 1 minus the greatest entailment probability over the first
  three source texts cut to 1000 characters, and 0 when no sentence qualifies; the entity
  is flagged exactly when the confidence exceeds 0.5. So a description without a
  qualifying sentence, and one whose qualifying sentences all have entailment 1, get
  confidence 0 and are not flagged.
\<close>

theorem nli_confidence_is_mean:
  assumes "get_source_texts e text_unit_map row = Inr source_texts"
    and "source_texts \<noteq> []"
    and "\<forall>p h. 0 \<le> nli_entailment e p h"
  shows "\<exists>r. gpu_nli_validate_entity e text_unit_map row = Inr r \<and>
           confidence r = nli_confidence_spec e source_texts (row_description row) \<and>
           (is_hallucinated r \<longleftrightarrow> confidence r > 0.5) \<and>
           (qualifying_sentences (row_description row) = [] \<longrightarrow>
              confidence r = 0 \<and> \<not> is_hallucinated r) \<and>
           ((\<forall>s\<in>set (qualifying_sentences (row_description row)).
               best_entailment e source_texts s = 1) \<longrightarrow>
              confidence r = 0 \<and> \<not> is_hallucinated r)"
proof -
  let ?q = "qualifying_sentences (row_description row)"
  let ?scores = "map (sentence_score_spec e source_texts) ?q"
  let ?c = "nli_confidence_spec e source_texts (row_description row)"
  have cs: "contradiction_scores e source_texts (row_description row) = ?scores"
    by (rule contradiction_scores_spec [OF assms(2,3)])
  obtain r where r: "gpu_nli_validate_entity e text_unit_map row = Inr r"
    and c: "confidence r = ?c" and h: "is_hallucinated r \<longleftrightarrow> confidence r > 0.5"
    using assms(1,2)
    by (simp add: gpu_nli_validate_entity_def cs nli_confidence_spec_def Let_def)
  have empty: "?q = [] \<Longrightarrow> ?c = 0"
    by (simp add: nli_confidence_spec_def)
  have entailed: "?c = 0" if "\<forall>s\<in>set ?q. best_entailment e source_texts s = 1"
  proof -
    have "sum_list ?scores = 0"
      using that by (intro sum_list_all_zero) (simp add: sentence_score_spec_def)
    then show ?thesis by (simp add: nli_confidence_spec_def Let_def)
  qed
  show ?thesis
    using r c h empty entailed by auto
qed

theorem nli_confidence_is_mean_witness:
  "(\<forall>p h. 0 \<le> nli_entailment (example_env NoContent) p h) \<and>
   (\<exists>r. gpu_nli_validate_entity (example_env NoContent) grace_units grace = Inr r \<and>
        confidence r = 3 / 8 \<and> \<not> is_hallucinated r) \<and>
   (\<exists>r. gpu_nli_validate_entity (example_env NoContent) grace_units grace_entailed = Inr r \<and>
        confidence r = 0 \<and> \<not> is_hallucinated r) \<and>
   (\<exists>r. gpu_nli_validate_entity (example_env NoContent) grace_units grace_short = Inr r \<and>
        confidence r = 0 \<and> \<not> is_hallucinated r)"
proof -
  let ?e = "example_env NoContent"
  let ?src = "[''Admiral Grace wrote compilers for the navy'', ''Nothing about the moon'']"
  have nn: "\<forall>p h. 0 \<le> nli_entailment ?e p h" by (simp add: example_env_def)
  have ne: "?src \<noteq> []" by simp
  have s1: "get_source_texts ?e grace_units grace = Inr ?src" by code_simp
  have s2: "get_source_texts ?e grace_units grace_entailed = Inr ?src" by code_simp
  have s3: "get_source_texts ?e grace_units grace_short = Inr ?src" by code_simp
  have c1: "nli_confidence_spec ?e ?src (row_description grace) = 3 / 8" by code_simp
  have q2: "\<forall>s\<in>set (qualifying_sentences (row_description grace_entailed)).
              best_entailment ?e ?src s = 1" by code_simp
  have q3: "qualifying_sentences (row_description grace_short) = []" by code_simp
  have 1: "\<exists>r. gpu_nli_validate_entity ?e grace_units grace = Inr r \<and>
             confidence r = 3 / 8 \<and> \<not> is_hallucinated r"
    using nli_confidence_is_mean [OF s1 ne nn] c1 by auto
  have 2: "\<exists>r. gpu_nli_validate_entity ?e grace_units grace_entailed = Inr r \<and>
             confidence r = 0 \<and> \<not> is_hallucinated r"
    using nli_confidence_is_mean [OF s2 ne nn] q2 by blast
  have 3: "\<exists>r. gpu_nli_validate_entity ?e grace_units grace_short = Inr r \<and>
             confidence r = 0 \<and> \<not> is_hallucinated r"
    using nli_confidence_is_mean [OF s3 ne nn] q3 by blast
  show ?thesis using nn 1 2 3 by blast
qed

section \<open>The escalation path of the hybrid scorer\<close>

lemma sublist_drop_left:
  assumes "sublist xs (a @ ys)" and "xs \<noteq> []" and "hd xs \<notin> set a"
  shows "sublist xs ys"
  using assms
proof (induction a)
  case Nil
  then show ?case by simp
next
  case (Cons c a)
  from Cons.prems(1) have "prefix xs (c # a @ ys) \<or> sublist xs (a @ ys)"
    by (simp add: sublist_Cons_right)
  moreover have "\<not> prefix xs (c # a @ ys)"
    using Cons.prems(2,3) by (cases xs) auto
  ultimately show ?case using Cons by simp
qed

lemma sublist_drop_right:
  assumes "sublist xs (ys @ b)" and "xs \<noteq> []" and "last xs \<notin> set b"
  shows "sublist xs ys"
proof -
  have "sublist (rev xs) (rev b @ rev ys)"
    using assms(1) by (metis rev_append sublist_rev)
  moreover have "hd (rev xs) \<notin> set (rev b)"
    using assms(2,3) by (simp add: hd_rev)
  ultimately have "sublist (rev xs) (rev ys)"
    using assms(2) sublist_drop_left [of "rev xs" "rev b" "rev ys"] by simp
  then show ?thesis by simp
qed

text \<open>Stripping removes a run of the stripped characters at each end.\<close>

lemma strip_where_decomp:
  "\<exists>a b. s = a @ strip_where p s @ b \<and> (\<forall>c\<in>set a. p c) \<and> (\<forall>c\<in>set b. p c)"
proof -
  let ?d = "dropWhile p s"
  have 1: "s = takeWhile p s @ ?d" by simp
  have 2: "rev ?d = takeWhile p (rev ?d) @ dropWhile p (rev ?d)" by simp
  have "?d = rev (dropWhile p (rev ?d)) @ rev (takeWhile p (rev ?d))"
    using 2 by (metis rev_append rev_rev_ident)
  then have "s = takeWhile p s @ strip_where p s @ rev (takeWhile p (rev ?d))"
    using 1 by (simp add: strip_where_def)
  moreover have "\<forall>c\<in>set (takeWhile p s). p c" by (auto dest: set_takeWhileD)
  moreover have "\<forall>c\<in>set (rev (takeWhile p (rev ?d))). p c" by (auto dest: set_takeWhileD)
  ultimately show ?thesis by blast
qed

lemma upper_char_space: "is_space c \<Longrightarrow> upper_char c = c"
  by (auto simp: is_space_def upper_char_def Let_def)

text \<open>A word that neither starts nor ends with whitespace occurs in the stripped text
  exactly when it occurs in the text.\<close>

lemma sublist_upper_strip:
  assumes "w \<noteq> []" and "\<not> is_space (hd w)" and "\<not> is_space (last w)"
  shows "sublist w (str_upper (str_strip s)) \<longleftrightarrow> sublist w (str_upper s)"
proof -
  obtain a b where s: "s = a @ str_strip s @ b"
    and a: "\<forall>c\<in>set a. is_space c" and b: "\<forall>c\<in>set b. is_space c"
    using strip_where_decomp [of s is_space] unfolding str_strip_def by blast
  have ua: "map upper_char a = a" using a by (simp add: map_idI upper_char_space)
  have ub: "map upper_char b = b" using b by (simp add: map_idI upper_char_space)
  have up: "str_upper s = a @ str_upper (str_strip s) @ b"
    using s ua ub unfolding str_upper_def by (metis map_append)
  show ?thesis
  proof
    assume "sublist w (str_upper (str_strip s))"
    then show "sublist w (str_upper s)"
      unfolding up by (metis sublist_append)
  next
    assume "sublist w (str_upper s)"
    then have 1: "sublist w (a @ str_upper (str_strip s) @ b)" by (simp add: up)
    have "hd w \<notin> set a" using a assms(2) by blast
    then have "sublist w (str_upper (str_strip s) @ b)"
      using sublist_drop_left [OF 1 assms(1)] by simp
    moreover have "last w \<notin> set b" using b assms(3) by blast
    ultimately show "sublist w (str_upper (str_strip s))"
      using sublist_drop_right assms(1) by blast
  qed
qed

text \<open>\<open>w in s.upper()\<close>: some piece of \<open>s\<close> is \<open>w\<close> up to the case of its letters.\<close>

lemma sublist_upper_iff:
  "sublist w (str_upper s) \<longleftrightarrow> (\<exists>pre t post. s = pre @ t @ post \<and> str_upper t = w)"
proof
  assume "sublist w (str_upper s)"
  then obtain ps ss where "map upper_char s = ps @ w @ ss"
    unfolding str_upper_def sublist_def by blast
  then show "\<exists>pre t post. s = pre @ t @ post \<and> str_upper t = w"
    unfolding str_upper_def by (metis append_eq_map_conv)
next
  assume "\<exists>pre t post. s = pre @ t @ post \<and> str_upper t = w"
  then show "sublist w (str_upper s)"
    unfolding str_upper_def by auto
qed

lemma hallucinated_word_ends:
  "''HALLUCINATED'' \<noteq> []"
  "\<not> is_space (hd ''HALLUCINATED'')"
  "\<not> is_space (last ''HALLUCINATED'')"
  by (simp_all add: is_space_def)

lemma spot_check_flag:
  assumes "llm_chat e (SpotCheckPrompt name etype descr
             (str_join context_separator (take 3 source_texts))) = Content content"
  shows "is_hallucinated (groq_spot_check e name etype descr source_texts) =
           sublist ''HALLUCINATED'' (str_upper content)"
    and "confidence (groq_spot_check e name etype descr source_texts) =
           (if sublist ''HALLUCINATED'' (str_upper content) then 0.7 else 0.3)"
  using assms sublist_upper_strip [OF hallucinated_word_ends, of content]
  by (simp_all add: groq_spot_check_def Let_def)

text \<open>The result of the escalation path, before any look at the reply.\<close>

lemma hybrid_escalation_result:
  assumes "get_source_texts e text_unit_map row = Inr source_texts"
    and "source_texts \<noteq> []"
    and "\<not> (coverage (row_description row) source_texts > 0.7 \<and>
            name_found (row_title row) source_texts)"
    and "\<not> (coverage (row_description row) source_texts < 0.3 \<or>
            \<not> name_found (row_title row) source_texts)"
  shows "hybrid_validate_entity e text_unit_map True row =
           Inr ((groq_spot_check e (row_title row) (row_type row) (row_description row)
                   source_texts)
                 \<lparr>validation_time := py_elapsed e, method_tag := ''hybrid_groq''\<rparr>)"
  using assms by (simp add: hybrid_validate_entity_def Let_def)

text \<open>
  C10. On the escalation path of the hybrid scorer, when the LLM gives a reply, the
  entity is flagged, with confidence 0.7, exactly when some piece of the whole reply
  reads \<open>HALLUCINATED\<close> up to the case of its letters, on whatever line; otherwise the
  confidence is 0.3. A reply whose verdict is \<open>ACCURATE\<close> and whose reason contains the
  word \<open>hallucinated\<close> is therefore flagged.
\<close>

theorem escalation_flags_word_anywhere:
  assumes "get_source_texts e text_unit_map row = Inr source_texts"
    and "source_texts \<noteq> []"
    and "\<not> (coverage (row_description row) source_texts > 0.7 \<and>
            name_found (row_title row) source_texts)"
    and "\<not> (coverage (row_description row) source_texts < 0.3 \<or>
            \<not> name_found (row_title row) source_texts)"
    and "llm_chat e (SpotCheckPrompt (row_title row) (row_type row) (row_description row)
           (str_join context_separator (take 3 source_texts))) = Content content"
  shows "\<exists>r. hybrid_validate_entity e text_unit_map True row = Inr r \<and>
           (is_hallucinated r \<longleftrightarrow>
              (\<exists>pre t post. content = pre @ t @ post \<and> str_upper t = ''HALLUCINATED'')) \<and>
           confidence r = (if is_hallucinated r then 0.7 else 0.3)"
  unfolding hybrid_escalation_result [OF assms(1-4)]
  using spot_check_flag [OF assms(5)]
  by (simp add: sublist_upper_iff)

theorem escalation_flags_word_anywhere_witness:
  "reply_accurate_wording =
     (''VERDICT: ACCURATE'' @ [newline] @ ''CONFIDENCE: 0.9'' @ [newline]
        @ ''REASON: Nothing here is '') @ ''hallucinated'' @ ''.'' \<and>
   (\<exists>r. hybrid_validate_entity (example_env (Content reply_accurate_wording)) example_units
           True ada = Inr r \<and> is_hallucinated r \<and> confidence r = 7 / 10)"
proof -
  let ?e = "example_env (Content reply_accurate_wording)"
  let ?src = "[''Ada alpha beta'']"
  let ?pre = "''VERDICT: ACCURATE'' @ [newline] @ ''CONFIDENCE: 0.9'' @ [newline]
                @ ''REASON: Nothing here is ''"
  have s: "get_source_texts ?e example_units ada = Inr ?src" by code_simp
  have ne: "?src \<noteq> []" by simp
  have hi: "\<not> (coverage (row_description ada) ?src > 0.7 \<and> name_found (row_title ada) ?src)"
    by code_simp
  have lo: "\<not> (coverage (row_description ada) ?src < 0.3 \<or> \<not> name_found (row_title ada) ?src)"
    by code_simp
  have reply: "llm_chat ?e (SpotCheckPrompt (row_title ada) (row_type ada) (row_description ada)
                 (str_join context_separator (take 3 ?src))) = Content reply_accurate_wording"
    by (simp add: example_env_def)
  have split: "reply_accurate_wording = ?pre @ ''hallucinated'' @ ''.''"
    by (simp add: reply_accurate_wording_def)
  have up: "str_upper ''hallucinated'' = ''HALLUCINATED''"
    by code_simp
  have "\<exists>pre t post. reply_accurate_wording = pre @ t @ post \<and> str_upper t = ''HALLUCINATED''"
    using split up by blast
  then show ?thesis
    using escalation_flags_word_anywhere [OF s ne hi lo reply] split by auto
qed

text \<open>The fields of a result of the escalation path: the identifier is the empty string
  that \<open>_groq_spot_check\<close> puts there, whatever the LLM did.\<close>

lemma hybrid_escalation_fields:
  assumes "get_source_texts e text_unit_map row = Inr source_texts"
    and "source_texts \<noteq> []"
    and "\<not> (coverage (row_description row) source_texts > 0.7 \<and>
            name_found (row_title row) source_texts)"
    and "\<not> (coverage (row_description row) source_texts < 0.3 \<or>
            \<not> name_found (row_title row) source_texts)"
  shows "\<exists>r. hybrid_validate_entity e text_unit_map True row = Inr r \<and>
           entity_id r = [] \<and> entity_name r = row_title row \<and>
           entity_type r = row_type row \<and> description r = row_description row \<and>
           method_tag r = ''hybrid_groq'' \<and> validation_time r = py_elapsed e"
  unfolding hybrid_escalation_result [OF assms]
  by (simp add: groq_spot_check_def Let_def split: llm_reply.splits)

text \<open>
  C6. The claim is that a result of the escalation path carries the identifier, name,
  type and description of the entity. For the entity \<open>e1\<close> the result carries the empty
  identifier, which the caller of \<open>_groq_spot_check\<close> never replaces.
\<close>

theorem hybrid_escalation_loses_identifier:
  "hybrid_validate_entity (example_env (Content reply_accurate)) example_units True ada =
     Inr \<lparr>entity_id = [], entity_name = ''Ada'', entity_type = ''PERSON'',
          description = ''alpha beta gamma delta'', confidence = 3 / 10,
          is_hallucinated = False, method_tag = ''hybrid_groq'',
          issues = [''Half of the terms appear.''], validation_time = 2\<rparr>"
  by code_simp

text \<open>The other scorers copy the identifier.\<close>

lemma groq_result_identifier:
  "groq_validate_entity e text_unit_map row = Inr r \<Longrightarrow> entity_id r = row_id row"
  by (auto simp: groq_validate_entity_def no_source_result_def Let_def
      split: sum.splits if_splits prod.splits)

lemma gpu_nli_result_identifier:
  "gpu_nli_validate_entity e text_unit_map row = Inr r \<Longrightarrow> entity_id r = row_id row"
  by (auto simp: gpu_nli_validate_entity_def no_source_result_def Let_def
      split: sum.splits if_splits)

section \<open>The batch runner: the loop\<close>

text \<open>The loop over a queue passes through the state of the loop over each prefix of the
  queue: that state is what an interruption between two passes leaves behind.\<close>

lemma batch_loop_append:
  "batch_loop v (xs @ ys) st = batch_loop v ys (batch_loop v xs st)"
proof (induction xs arbitrary: st)
  case Nil
  then show ?case by simp
next
  case (Cons x xs)
  obtain rs f where st: "st = (rs, f)" by (cases st)
  show ?case
    unfolding st using Cons.IH by (simp add: Let_def split: sum.splits)
qed

text \<open>The list after the loop: what was loaded, then the results of the rows that did
  not fail, in order.\<close>

lemma batch_loop_results:
  "fst (batch_loop v rows (rs, f)) = rs @ successes v rows"
proof (induction rows arbitrary: rs f)
  case Nil
  then show ?case by (simp add: successes_def)
next
  case (Cons row rows)
  show ?case
  proof (cases "v row")
    case (Inl err)
    then show ?thesis using Cons.IH [of rs f] by (simp add: successes_def)
  next
    case (Inr r)
    then show ?thesis
      using Cons.IH [of "rs @ [r]"] by (simp add: successes_def Let_def)
  qed
qed

text \<open>The file after the loop: untouched while the length of the list has not reached a
  further multiple of 10, and else the list as it was at the last multiple of 10.\<close>

lemma batch_loop_file:
  "snd (batch_loop v rows (rs, f)) =
     (if length rs div 10 < length (rs @ successes v rows) div 10
      then Some (take (10 * (length (rs @ successes v rows) div 10)) (rs @ successes v rows))
      else f)"
proof (induction rows arbitrary: rs f)
  case Nil
  then show ?case by (simp add: successes_def)
next
  case (Cons row rows)
  show ?case
  proof (cases "v row")
    case (Inl err)
    then show ?thesis using Cons.IH [of rs f] by (simp add: successes_def)
  next
    case (Inr r)
    let ?rs' = "rs @ [r]"
    let ?f' = "if length ?rs' mod 10 = 0 then Some ?rs' else f"
    let ?all = "?rs' @ successes v rows"
    have all: "rs @ successes v (row # rows) = ?all"
      using Inr by (simp add: successes_def)
    have step: "snd (batch_loop v (row # rows) (rs, f)) = snd (batch_loop v rows (?rs', ?f'))"
      using Inr by (simp add: Let_def)
    have ih: "snd (batch_loop v rows (?rs', ?f')) =
        (if length ?rs' div 10 < length ?all div 10
         then Some (take (10 * (length ?all div 10)) ?all) else ?f')"
      by (rule Cons.IH)
    show ?thesis
    proof (cases "length ?rs' mod 10 = 0")
      case True
      then have d: "length rs div 10 < length ?rs' div 10" by simp presburger
      have le: "length ?rs' div 10 \<le> length ?all div 10" by (simp add: div_le_mono)
      have full: "10 * (length ?rs' div 10) = length ?rs'" using True by presburger
      show ?thesis
      proof (cases "length ?rs' div 10 < length ?all div 10")
        case True
        then show ?thesis using d step ih unfolding all by simp
      next
        case False
        then have eq: "length ?all div 10 = length ?rs' div 10" using le by simp
        have "take (10 * (length ?all div 10)) ?all = ?rs'"
          unfolding eq full by simp
        moreover have "length rs div 10 < length ?all div 10" using d eq by simp
        ultimately show ?thesis
          using step ih False \<open>length ?rs' mod 10 = 0\<close> unfolding all by simp
      qed
    next
      case False
      then have d: "length ?rs' div 10 = length rs div 10" by simp presburger
      show ?thesis using step ih False d unfolding all by simp
    qed
  qed
qed

lemma validate_batch_final_save:
  "snd (validate_batch v entities_df file limit resume) =
     Some (fst (validate_batch v entities_df file limit resume))"
  by (simp add: validate_batch_def Let_def split: prod.splits)

lemma head_Nil: "head n [] = []"
  by (simp add: head_def)

lemma entities_to_process_covered:
  assumes "row_id ` set entities_df \<subseteq> processed_ids"
  shows "entities_to_process entities_df processed_ids limit = []"
proof -
  have "filter (\<lambda>row. row_id row \<notin> processed_ids) entities_df = []"
    using assms by (auto simp: filter_empty_conv)
  then show ?thesis
    by (simp add: entities_to_process_def head_Nil split: option.splits)
qed

section \<open>The batch runner: the limit\<close>

text \<open>
  C7, as claimed: for every limit \<open>N\<close> the runner processes at most \<open>N\<close> entities. With
  the limit 0 and 25 entities it processes all 25: a limit of 0 is no limit for the test
  \<open>if limit:\<close>.
\<close>

theorem limit_zero_counterexample:
  "length (entities_to_process rows25 {} (Some 0)) = 25 \<and>
   length (fst (validate_batch example_scorer rows25 None (Some 0) False)) = 25"
  by code_simp

text \<open>
  C7, amended. For every limit \<open>N\<close> of at least 1 the work queue is the first \<open>N\<close>
  entities, in corpus order, of those whose identifier is not yet processed: the limit
  cuts after the filter. So at most \<open>N\<close> entities are processed, and the run returns the
  loaded results followed by the results of the entities of that queue that did not fail.
\<close>

theorem limit_applies_after_filter:
  assumes "0 < n"
  shows "entities_to_process entities_df processed_ids (Some n) =
           take (nat n) (filter (\<lambda>row. row_id row \<notin> processed_ids) entities_df) \<and>
         int (length (entities_to_process entities_df processed_ids (Some n))) \<le> n \<and>
         fst (validate_batch v entities_df file (Some n) resume) =
           loaded_results file resume @
           successes v (take (nat n)
             (filter (\<lambda>row. row_id row \<notin> set (map entity_id (loaded_results file resume)))
                entities_df))"
proof -
  have q: "entities_to_process entities_df ids (Some n) =
             take (nat n) (filter (\<lambda>row. row_id row \<notin> ids) entities_df)" for ids
    using assms by (simp add: entities_to_process_def head_def)
  have "int (length (entities_to_process entities_df processed_ids (Some n))) \<le> n"
    unfolding q using assms by simp
  moreover have "fst (validate_batch v entities_df file (Some n) resume) =
      loaded_results file resume @
      successes v (entities_to_process entities_df
        (set (map entity_id (loaded_results file resume))) (Some n))"
    using batch_loop_results [of v _ "loaded_results file resume" "file"]
    by (simp add: validate_batch_def Let_def split: prod.splits) (metis fst_conv)
  ultimately show ?thesis using q by simp
qed

theorem limit_applies_after_filter_witness:
  "(0::int) < 2 \<and>
   entities_to_process rows25 {''e01'', ''e03''} (Some 2) = [plain_row ''e02'', plain_row ''e04'']"
proof -
  have h: "(0::int) < 2" by simp
  have "take (nat 2) (filter (\<lambda>row. row_id row \<notin> {''e01'', ''e03''}) rows25) =
          [plain_row ''e02'', plain_row ''e04'']"
    by code_simp
  then show ?thesis
    using limit_applies_after_filter [OF h, of rows25 "{''e01'', ''e03''}"] by simp
qed

section \<open>The batch runner: resuming\<close>

text \<open>
  C5, as claimed: after a run to completion, a run with \<open>resume\<close> over the same
  collection processes no entity. Here the first run records a result for \<open>e1\<close> and
  skips \<open>e4\<close>, whose scoring raises; the work queue of the resumed run holds \<open>e4\<close>.
\<close>

theorem resume_idempotence_counterexample:
  "fst (validate_batch example_scorer [ada, broken_row] None None False) =
     [\<lparr>entity_id = ''e1'', entity_name = ''Ada'', entity_type = ''PERSON'',
       description = ''alpha beta gamma delta'', confidence = 0, is_hallucinated = False,
       method_tag = ''groq'', issues = [''API error: API returned empty response''],
       validation_time = 2\<rparr>] \<and>
   entities_to_process [ada, broken_row]
     (set (map entity_id (fst (validate_batch example_scorer [ada, broken_row] None None False))))
     None = [broken_row]"
  by code_simp

text \<open>
  C5, amended. When the results of a finished run carry the identifier of every entity
  of the collection, a run with \<open>resume\<close> over the same collection, with any scorer and
  any limit, has an empty work queue, returns the same results and leaves the same
  checkpoint.
\<close>

theorem resume_idempotent_when_all_recorded:
  assumes "row_id ` set entities_df
             \<subseteq> entity_id ` set (fst (validate_batch v entities_df file limit resume))"
  shows "entities_to_process entities_df
           (set (map entity_id (fst (validate_batch v entities_df file limit resume))))
           limit' = [] \<and>
         validate_batch v' entities_df (snd (validate_batch v entities_df file limit resume))
           limit' True = validate_batch v entities_df file limit resume"
proof -
  let ?run = "validate_batch v entities_df file limit resume"
  have f: "snd ?run = Some (fst ?run)"
    by (rule validate_batch_final_save)
  define rs where "rs = fst ?run"
  have q: "entities_to_process entities_df (set (map entity_id rs)) limit' = []"
  proof (rule entities_to_process_covered)
    show "row_id ` set entities_df \<subseteq> set (map entity_id rs)"
      unfolding set_map rs_def by (rule assms)
  qed
  have "validate_batch v' entities_df (Some rs) limit' True = (rs, Some rs)"
    using q by (simp add: validate_batch_def loaded_results_def)
  then show ?thesis
    using q f unfolding rs_def by (metis prod.collapse)
qed

theorem resume_idempotent_when_all_recorded_witness:
  "row_id ` set [ada, orphan]
     \<subseteq> entity_id ` set (fst (validate_batch example_scorer [ada, orphan] None None False)) \<and>
   entities_to_process [ada, orphan]
     (set (map entity_id (fst (validate_batch example_scorer [ada, orphan] None None False))))
     None = [] \<and>
   validate_batch example_scorer [ada, orphan]
     (snd (validate_batch example_scorer [ada, orphan] None None False)) None True =
   validate_batch example_scorer [ada, orphan] None None False"
proof -
  have h: "row_id ` set [ada, orphan]
     \<subseteq> entity_id ` set (fst (validate_batch example_scorer [ada, orphan] None None False))"
    by code_simp
  show ?thesis
    using h resume_idempotent_when_all_recorded [OF h, of None example_scorer] by simp
qed

text \<open>The hypothesis holds after a run without limit of a scorer that gives every entity
  a result with its identifier, as the LLM-prompt and NLI scorers do whenever they
  return.\<close>

lemma clean_run_records_all:
  assumes "\<forall>row\<in>set entities_df. \<exists>r. v row = Inr r \<and> entity_id r = row_id row"
  shows "row_id ` set entities_df
           \<subseteq> entity_id ` set (fst (validate_batch v entities_df file None resume))"
proof
  fix i assume "i \<in> row_id ` set entities_df"
  then obtain row where row: "row \<in> set entities_df" and i: "i = row_id row" by blast
  let ?rs0 = "loaded_results file resume"
  let ?todo = "filter (\<lambda>row. row_id row \<notin> set (map entity_id ?rs0)) entities_df"
  have run: "fst (validate_batch v entities_df file None resume) = ?rs0 @ successes v ?todo"
    using batch_loop_results [of v ?todo ?rs0 "file"]
    by (simp add: validate_batch_def entities_to_process_def Let_def split: prod.splits)
      (metis fst_conv)
  show "i \<in> entity_id ` set (fst (validate_batch v entities_df file None resume))"
  proof (cases "i \<in> set (map entity_id ?rs0)")
    case True
    then show ?thesis unfolding run by auto
  next
    case False
    then have "row \<in> set ?todo" using row i by simp
    moreover obtain r where r: "v row = Inr r" and id: "entity_id r = row_id row"
      using assms row by blast
    ultimately have "r \<in> set (successes v ?todo)"
      unfolding successes_def by (force simp: r)
    then show ?thesis unfolding run using id i by force
  qed
qed

text \<open>An entity sent through the escalation path of the hybrid scorer is recorded under
  the empty identifier, so that a resumed run takes it up again.\<close>

lemma hybrid_escalated_entity_redone_on_resume:
  "entities_to_process [ada]
     (set (map entity_id (fst (validate_batch
        (hybrid_validate_entity (example_env (Content reply_accurate)) example_units True)
        [ada] None None False)))) None = [ada]"
  by code_simp

section \<open>The batch runner: checkpoints\<close>

text \<open>
  C8, as claimed: the whole list is saved after every 10 entities successfully processed
  in the run. A run that resumes from a checkpoint of 3 results and is interrupted after
  10 entities successfully processed holds 13 results, and its checkpoint holds 10: the
  save came after the 7th entity of the run, when the list reached the length 10.
\<close>

theorem checkpoint_per_run_counterexample:
  "length (fst resumed_run) - length (loaded_results (snd first_run) True) = 10 \<and>
   length (fst resumed_run) = 13 \<and>
   map_option length (snd resumed_run) = Some 10"
  by code_simp

text \<open>
  C8, amended. In every run the whole accumulated list, the results loaded on resume
  included, is saved whenever its length reaches a multiple of 10, and once more when the
  run ends: after any number of passes of the loop the checkpoint is the accumulated list
  cut at the last multiple of 10 of its length, if that length passed a multiple of 10 in
  this run, and is untouched else. So a fresh batch interrupted after exactly 23
  successfully processed entities leaves a checkpoint of exactly 20 results.
\<close>

theorem checkpoint_schedule:
  "snd (interrupted_batch v entities_df file limit resume k) =
     (if length (loaded_results file resume) div 10
           < length (fst (interrupted_batch v entities_df file limit resume k)) div 10
      then Some (take (10 * (length (fst (interrupted_batch v entities_df file limit resume k))
                               div 10))
                   (fst (interrupted_batch v entities_df file limit resume k)))
      else file) \<and>
   snd (validate_batch v entities_df file limit resume) =
     Some (fst (validate_batch v entities_df file limit resume)) \<and>
   (loaded_results file resume = [] \<and>
    length (fst (interrupted_batch v entities_df file limit resume k)) = 23 \<longrightarrow>
      snd (interrupted_batch v entities_df file limit resume k) =
        Some (take 20 (fst (interrupted_batch v entities_df file limit resume k))) \<and>
      map_option length (snd (interrupted_batch v entities_df file limit resume k)) = Some 20)"
proof -
  let ?rs0 = "loaded_results file resume"
  let ?todo = "take k (entities_to_process entities_df (set (map entity_id ?rs0)) limit)"
  let ?st = "interrupted_batch v entities_df file limit resume k"
  have st: "?st = batch_loop v ?todo (?rs0, file)"
    by (simp add: interrupted_batch_def Let_def)
  have rs: "fst ?st = ?rs0 @ successes v ?todo"
    unfolding st by (rule batch_loop_results)
  have f: "snd ?st =
     (if length ?rs0 div 10 < length (fst ?st) div 10
      then Some (take (10 * (length (fst ?st) div 10)) (fst ?st)) else file)"
    unfolding rs unfolding st by (rule batch_loop_file)
  have fresh: "snd ?st = Some (take 20 (fst ?st)) \<and> map_option length (snd ?st) = Some 20"
    if "?rs0 = []" and "length (fst ?st) = 23"
  proof -
    have "snd ?st = Some (take 20 (fst ?st))"
      using f that by simp
    then show ?thesis using that(2) by simp
  qed
  show ?thesis using f validate_batch_final_save fresh by blast
qed

theorem checkpoint_schedule_witness:
  "loaded_results None False = [] \<and>
   length (fst (interrupted_batch example_scorer rows25 None None False 23)) = 23 \<and>
   map_option length (snd (interrupted_batch example_scorer rows25 None None False 23)) = Some 20"
proof -
  have 1: "loaded_results None False = []" by code_simp
  have 2: "length (fst (interrupted_batch example_scorer rows25 None None False 23)) = 23"
    by code_simp
  show ?thesis
    using 1 2 checkpoint_schedule [of example_scorer rows25 None None False 23] by simp
qed

end
